theory Spec2Isabelle
  imports Complex_Main
begin

section \<open>The reader engine of the tape-ticker application\<close>

text \<open>
  This theory embeds the playback engine of \<^verbatim>\<open>ReaderView\<close> (the animation loop
  \<^verbatim>\<open>loop\<close>, \<^verbatim>\<open>stopPlayback\<close>, \<^verbatim>\<open>startPlayback\<close> and the three pointer
  handlers) and the cadence function \<^verbatim>\<open>getWordWeight\<close>.

  JavaScript numbers are modelled as \<^typ>\<open>real\<close>: timestamps, speeds and dwell times are
  exact, so rounding error of IEEE doubles is not part of the model. Word indices are
  integers. \<^verbatim>\<open>Math.floor\<close> is \<^term>\<open>floor\<close>, \<^verbatim>\<open>Math.round\<close> is
  \<open>\<lfloor>x + 1/2\<rfloor>\<close>. Each reading of \<^verbatim>\<open>performance.now()\<close> is a parameter.
\<close>

subsection \<open>Constants\<close>

definition MIN_WPM :: real where "MIN_WPM = 100"
definition MAX_WPM :: real where "MAX_WPM = 1500"
definition MIN_FONT_SIZE :: real where "MIN_FONT_SIZE = 32"
definition MAX_FONT_SIZE :: real where "MAX_FONT_SIZE = 128"
definition RAMP_UP_DURATION_MS :: real where "RAMP_UP_DURATION_MS = 1500"
definition REWIND_COUNT :: int where "REWIND_COUNT = 3"
definition AUTO_REV_DELAY_MS :: real where "AUTO_REV_DELAY_MS = 2000"
definition AUTO_REV_DURATION_MS :: real where "AUTO_REV_DURATION_MS = 3000"
definition INITIAL_SETTINGS_wpm :: real where "INITIAL_SETTINGS_wpm = 400"
definition INITIAL_SETTINGS_fontSize :: real where "INITIAL_SETTINGS_fontSize = 64"

subsection \<open>Cadence weight\<close>

text \<open>
  The character class \<^verbatim>\<open>[a-zA-Z0-9.,!?;:]\<close> of the regular expression. A token is a
  \<^typ>\<open>string\<close>; a character outside ASCII is never in the class and never one of the six
  punctuation marks, so the byte alphabet loses nothing the function looks at.
\<close>

definition keptChar :: "char \<Rightarrow> bool" where
  "keptChar c \<longleftrightarrow>
     (let n = of_char c :: nat in
        (97 \<le> n \<and> n \<le> 122) \<or> (65 \<le> n \<and> n \<le> 90) \<or> (48 \<le> n \<and> n \<le> 57)
        \<or> c \<in> set ''.,!?;:'')"

text \<open>\<^verbatim>\<open>word.slice(-1)\<close>: the string of the last character, empty for the empty string.\<close>

definition slice_last :: "string \<Rightarrow> string" where
  "slice_last word = drop (length word - 1) word"

text \<open>
  \<^verbatim>\<open>getWordWeight\<close>. The argument is \<^verbatim>\<open>words[i]\<close>, which is \<^verbatim>\<open>undefined\<close>
  (here \<^term>\<open>None\<close>) when the index is out of range; \<^verbatim>\<open>!word\<close> holds for
  \<^verbatim>\<open>undefined\<close> and for the empty string.
\<close>

definition getWordWeight :: "string option \<Rightarrow> real" where
  "getWordWeight w =
     (case w of
        None \<Rightarrow> 1
      | Some word \<Rightarrow>
          if word = [] then 1
          else
            let cleanWord = filter keptChar word;
                lastChar = slice_last word
            in if lastChar \<in> set [''.'', ''!'', ''?''] then 22 / 10
               else if lastChar \<in> set ['','', '';'', '':''] then 15 / 10
               else if length cleanWord < 4 then 8 / 10
               else if length cleanWord > 8 then 11 / 10
               else 1)"

subsection \<open>State\<close>

record AppSettings =
  cadence :: bool
  fixation :: bool
  deadman :: bool
  autoRev :: bool
  southpaw :: bool

record DragRef =
  startX :: real
  startY :: real
  startWPM :: real
  startFontSize :: real

text \<open>
  The first ten fields are the \<^verbatim>\<open>engine\<close> ref. \<^verbatim>\<open>dragRef\<close> is the second ref
  (\<^verbatim>\<open>null\<close> is \<^term>\<open>None\<close>). The fields ending in \<open>UI\<close>, \<open>showSettings\<close>,
  \<open>displayWPM\<close>, \<open>fontSize\<close> and \<open>isBraking\<close> are the React state of the component.
  \<open>progressCalls\<close> records every call of \<^verbatim>\<open>onUpdateProgress(book.id, index)\<close>, oldest
  first.
\<close>

record Reader =
  isPlaying :: bool
  startTime :: real
  accumulatedTime :: real
  lastFrameTime :: real
  wordIndex :: int
  targetWPM :: real
  currentWPM :: real
  isDragging :: bool
  lastDragTime :: real
  dragStartWPM :: real
  dragRef :: "DragRef option"
  wordIndexUI :: int
  isPlayingUI :: bool
  showSettings :: bool
  displayWPM :: real
  fontSize :: real
  isBraking :: bool
  progressCalls :: "(string \<times> int) list"

text \<open>The component as mounted for a book whose stored progress is \<open>progressIndex\<close>.\<close>

definition initReader :: "int \<Rightarrow> Reader" where
  "initReader progressIndex =
     \<lparr> isPlaying = False, startTime = 0, accumulatedTime = 0, lastFrameTime = 0,
       wordIndex = progressIndex, targetWPM = INITIAL_SETTINGS_wpm, currentWPM = 0,
       isDragging = False, lastDragTime = 0, dragStartWPM = 0,
       dragRef = None, wordIndexUI = progressIndex, isPlayingUI = False,
       showSettings = False, displayWPM = INITIAL_SETTINGS_wpm,
       fontSize = INITIAL_SETTINGS_fontSize, isBraking = False, progressCalls = [] \<rparr>"

subsection \<open>Stop and Start\<close>

definition stopPlayback :: "string \<Rightarrow> Reader \<Rightarrow> Reader" where
  "stopPlayback bookId state =
     (if \<not> isPlaying state then state
      else
        let newIndex = max 0 (wordIndex state - REWIND_COUNT)
        in state\<lparr> isPlaying := False, wordIndex := newIndex, wordIndexUI := newIndex,
                  progressCalls := progressCalls state @ [(bookId, newIndex)],
                  isPlayingUI := False \<rparr>)"

text \<open>
  \<^verbatim>\<open>startPlayback\<close> reads the clock twice: \<open>now1\<close> becomes \<open>startTime\<close> and
  \<open>now2\<close> becomes \<open>lastFrameTime\<close>.
\<close>

definition startPlayback :: "string list \<Rightarrow> real \<Rightarrow> real \<Rightarrow> real \<Rightarrow> real \<Rightarrow> Reader \<Rightarrow> Reader" where
  "startPlayback words clientX clientY now1 now2 state =
     (let s1 = (if wordIndex state \<ge> int (length words) - 1
                then state\<lparr> wordIndex := 0, wordIndexUI := 0 \<rparr> else state)
      in s1\<lparr> isPlaying := True, startTime := now1, lastFrameTime := now2,
              accumulatedTime := 0, dragStartWPM := targetWPM s1,
              dragRef := Some \<lparr> startX = clientX, startY = clientY,
                                 startWPM = targetWPM s1, startFontSize = fontSize s1 \<rparr>,
              isPlayingUI := True \<rparr>)"

subsection \<open>The animation loop\<close>

text \<open>\<^verbatim>\<open>words[i]\<close>: \<^verbatim>\<open>undefined\<close> outside the array.\<close>

definition wordAt :: "string list \<Rightarrow> int \<Rightarrow> string option" where
  "wordAt words i = (if 0 \<le> i \<and> i < int (length words) then Some (words ! nat i) else None)"

text \<open>Step 1 of the loop body: the quartic ease-out of the time since Start.\<close>

definition rampEase :: "real \<Rightarrow> Reader \<Rightarrow> real" where
  "rampEase timestamp state =
     (let elapsed = timestamp - startTime state;
          rampProgress = min (elapsed / RAMP_UP_DURATION_MS) 1
      in 1 - (1 - rampProgress) ^ 4)"

text \<open>The local \<^verbatim>\<open>revProgress\<close> of step 2, as a function of the time since the last drag.\<close>

definition revProgress :: "real \<Rightarrow> real" where
  "revProgress timeSinceDrag = min ((timeSinceDrag - AUTO_REV_DELAY_MS) / AUTO_REV_DURATION_MS) 1"

text \<open>
  Step 2 of the loop body: the value of the local \<^verbatim>\<open>effectiveTarget\<close> for this frame,
  and the state after the possible snap of \<open>targetWPM\<close>.
\<close>

definition autoRevLogic :: "AppSettings \<Rightarrow> real \<Rightarrow> Reader \<Rightarrow> real \<times> Reader" where
  "autoRevLogic settings timestamp state =
     (if autoRev settings \<and> \<not> isDragging state \<and> targetWPM state < dragStartWPM state then
        let timeSinceDrag = timestamp - lastDragTime state
        in if timeSinceDrag > AUTO_REV_DELAY_MS then
             let revEase = 1 - (1 - revProgress timeSinceDrag) ^ 3;
                 effectiveTarget =
                   targetWPM state + (dragStartWPM state - targetWPM state) * revEase
             in (effectiveTarget,
                 if revProgress timeSinceDrag \<ge> 99 / 100
                 then state\<lparr> targetWPM := dragStartWPM state \<rparr> else state)
           else (targetWPM state, state)
      else (targetWPM state, state))"

text \<open>The dwell of the current word, \<^verbatim>\<open>msForThisWord\<close>; only used when \<open>currentWPM > 0\<close>.\<close>

definition msForThisWord :: "string list \<Rightarrow> AppSettings \<Rightarrow> Reader \<Rightarrow> real" where
  "msForThisWord words settings state =
     (let currentWord = wordAt words (wordIndex state);
          ms = 60000 / currentWPM state
      in if cadence settings then ms * getWordWeight currentWord else ms)"

text \<open>Step 3: the timing part of the loop body, entered when \<open>currentWPM > 0\<close>.\<close>

definition advanceWord :: "string list \<Rightarrow> AppSettings \<Rightarrow> string \<Rightarrow> real \<Rightarrow> Reader \<Rightarrow> Reader" where
  "advanceWord words settings bookId deltaTime state =
     (let ms = msForThisWord words settings state;
          s1 = state\<lparr> accumulatedTime := accumulatedTime state + deltaTime \<rparr>
      in if accumulatedTime s1 \<ge> ms then
           let s2 = s1\<lparr> accumulatedTime := accumulatedTime s1 - ms \<rparr>;
               nextIndex = wordIndex s2 + 1
           in if nextIndex \<ge> int (length words) then stopPlayback bookId s2
              else s2\<lparr> wordIndex := nextIndex, wordIndexUI := nextIndex \<rparr>
         else s1)"

text \<open>The local \<^verbatim>\<open>deltaTime\<close> of a frame.\<close>

definition deltaTime :: "real \<Rightarrow> Reader \<Rightarrow> real" where
  "deltaTime timestamp state =
     timestamp - (if lastFrameTime state = 0 then timestamp else lastFrameTime state)"

text \<open>
  Steps 1 and 2 of the playing branch: the speed of this frame, written to \<open>currentWPM\<close>
  and to the display, and the braking flag.
\<close>

definition updateSpeed :: "AppSettings \<Rightarrow> real \<Rightarrow> Reader \<Rightarrow> Reader" where
  "updateSpeed settings timestamp state =
     (let (effectiveTarget, s1) = autoRevLogic settings timestamp state;
          finalWPM = of_int \<lfloor>effectiveTarget * rampEase timestamp state\<rfloor>;
          isRevvingOrBraking = (dragStartWPM s1 > 0 \<and> effectiveTarget < dragStartWPM s1)
      in s1\<lparr> currentWPM := finalWPM, displayWPM := finalWPM,
              isBraking := isRevvingOrBraking \<rparr>)"

definition loop :: "string list \<Rightarrow> AppSettings \<Rightarrow> string \<Rightarrow> real \<Rightarrow> Reader \<Rightarrow> Reader" where
  "loop words settings bookId timestamp state0 =
     (let dt = deltaTime timestamp state0;
          state = state0\<lparr> lastFrameTime := timestamp \<rparr>
      in if isPlaying state then
           let s2 = updateSpeed settings timestamp state
           in if currentWPM s2 > 0 then advanceWord words settings bookId dt s2 else s2
         else state\<lparr> lastFrameTime := 0, currentWPM := 0, displayWPM := targetWPM state,
                     isBraking := False \<rparr>)"

subsection \<open>Successive frames\<close>

text \<open>
  The loop re-schedules itself with \<^verbatim>\<open>requestAnimationFrame(loop)\<close>, so the browser
  calls it once per frame with that frame's timestamp. \<open>frames\<close> runs it over a list of
  timestamps and returns the state after each frame.
\<close>

fun frames :: "string list \<Rightarrow> AppSettings \<Rightarrow> string \<Rightarrow> real list \<Rightarrow> Reader \<Rightarrow> Reader list" where
  "frames words settings bookId [] state = []"
| "frames words settings bookId (t # ts) state =
     loop words settings bookId t state # frames words settings bookId ts (loop words settings bookId t state)"

subsection \<open>Pointer handlers\<close>

definition handlePointerDown :: "string list \<Rightarrow> AppSettings \<Rightarrow> string \<Rightarrow> real \<Rightarrow> real \<Rightarrow> real \<Rightarrow> real \<Rightarrow> Reader \<Rightarrow> Reader" where
  "handlePointerDown words settings bookId clientX clientY now1 now2 state =
     (if showSettings state then state
      else if deadman settings then startPlayback words clientX clientY now1 now2 state
      else if isPlaying state then stopPlayback bookId state
      else startPlayback words clientX clientY now1 now2 state)"

definition handlePointerUp :: "AppSettings \<Rightarrow> string \<Rightarrow> real \<Rightarrow> Reader \<Rightarrow> Reader" where
  "handlePointerUp settings bookId now state =
     (let s1 = (if deadman settings then stopPlayback bookId state else state)
      in s1\<lparr> isDragging := False, lastDragTime := now, dragRef := None \<rparr>)"

text \<open>\<^verbatim>\<open>Math.round\<close> rounds half up.\<close>

definition Math_round :: "real \<Rightarrow> real" where
  "Math_round x = of_int \<lfloor>x + 1 / 2\<rfloor>"

definition handlePointerMove :: "real \<Rightarrow> real \<Rightarrow> real \<Rightarrow> Reader \<Rightarrow> Reader" where
  "handlePointerMove clientX clientY now state =
     (case dragRef state of
        None \<Rightarrow> state
      | Some d \<Rightarrow>
          if \<not> isPlaying state then state
          else
            let s1 = state\<lparr> isDragging := True, lastDragTime := now \<rparr>;
                dx = clientX - startX d;
                dy = clientY - startY d;
                newWPM = min (max (startWPM d + dx * 2) MIN_WPM) MAX_WPM;
                newFont = min (max (startFontSize d - dy * (1 / 2)) MIN_FONT_SIZE) MAX_FONT_SIZE;
                s2 = s1\<lparr> fontSize := Math_round newFont \<rparr>
            in if newWPM > startWPM d
               then s2\<lparr> targetWPM := Math_round newWPM, dragStartWPM := Math_round newWPM \<rparr>
               else s2\<lparr> targetWPM := Math_round newWPM \<rparr>)"

subsection \<open>Example data\<close>

definition demoWords :: "string list" where
  "demoWords = [''The'', ''sky'', ''above'', ''the'', ''port'', ''was'', ''the'', ''color'',
                ''of'', ''television,'']"

definition demoSettings :: AppSettings where
  "demoSettings = \<lparr> cadence = False, fixation = False, deadman = False, autoRev = True,
                     southpaw = False \<rparr>"

text \<open>A reader opened at word 0 and started at time 1000 with the pointer at (100, 200).\<close>

definition demoStart :: Reader where
  "demoStart = startPlayback demoWords 100 200 1000 1000 (initReader 0)"

text \<open>The same session on its last word.\<close>

definition demoLastWord :: Reader where
  "demoLastWord = demoStart\<lparr> lastFrameTime := 2500, wordIndex := 9, wordIndexUI := 9 \<rparr>"

text \<open>
  The same session after a drag to the right (cruise 500), a drag to the left of the
  origin (target 300) and the release of the drag at time 4000, in toggle mode.
\<close>

definition demoBraked :: Reader where
  "demoBraked = handlePointerUp demoSettings ''book'' 4000
                  (handlePointerMove 50 200 3900 (handlePointerMove 150 200 3800 demoStart))"

text \<open>The states after the frames at 1000, 1750 and 2500 of the session \<open>demoStart\<close>.\<close>

definition demoFrame1 :: Reader where
  "demoFrame1 = demoStart\<lparr> currentWPM := 0, displayWPM := 0 \<rparr>"

definition demoFrame2 :: Reader where
  "demoFrame2 = demoStart\<lparr> lastFrameTime := 1750, currentWPM := 375, displayWPM := 375,
                   accumulatedTime := 590, wordIndex := 1, wordIndexUI := 1 \<rparr>"

definition demoFrame3 :: Reader where
  "demoFrame3 = demoStart\<lparr> lastFrameTime := 2500, currentWPM := 400, displayWPM := 400,
                   accumulatedTime := 1190, wordIndex := 2, wordIndexUI := 2 \<rparr>"

section \<open>Properties\<close>

subsection \<open>Evaluation of the example data\<close>

lemmas consts_defs = MIN_WPM_def MAX_WPM_def MIN_FONT_SIZE_def MAX_FONT_SIZE_def
  RAMP_UP_DURATION_MS_def REWIND_COUNT_def AUTO_REV_DELAY_MS_def AUTO_REV_DURATION_MS_def
  INITIAL_SETTINGS_wpm_def INITIAL_SETTINGS_fontSize_def

lemma demoStart_eval:
  "demoStart =
     \<lparr> isPlaying = True, startTime = 1000, accumulatedTime = 0, lastFrameTime = 1000,
       wordIndex = 0, targetWPM = 400, currentWPM = 0,
       isDragging = False, lastDragTime = 0, dragStartWPM = 400,
       dragRef = Some \<lparr> startX = 100, startY = 200, startWPM = 400, startFontSize = 64 \<rparr>,
       wordIndexUI = 0, isPlayingUI = True, showSettings = False, displayWPM = 400,
       fontSize = 64, isBraking = False, progressCalls = [] \<rparr>"
  by (simp add: demoStart_def startPlayback_def initReader_def demoWords_def consts_defs Let_def)

lemma demoLastWord_eval:
  "demoLastWord =
     \<lparr> isPlaying = True, startTime = 1000, accumulatedTime = 0, lastFrameTime = 2500,
       wordIndex = 9, targetWPM = 400, currentWPM = 0,
       isDragging = False, lastDragTime = 0, dragStartWPM = 400,
       dragRef = Some \<lparr> startX = 100, startY = 200, startWPM = 400, startFontSize = 64 \<rparr>,
       wordIndexUI = 9, isPlayingUI = True, showSettings = False, displayWPM = 400,
       fontSize = 64, isBraking = False, progressCalls = [] \<rparr>"
  by (simp add: demoLastWord_def demoStart_eval)

lemmas loop_eval_defs = demoWords_def demoSettings_def loop_def Let_def updateSpeed_def
  autoRevLogic_def revProgress_def rampEase_def advanceWord_def msForThisWord_def
  deltaTime_def stopPlayback_def consts_defs

lemma demoBraked_eval:
  "demoBraked =
     \<lparr> isPlaying = True, startTime = 1000, accumulatedTime = 0, lastFrameTime = 1000,
       wordIndex = 0, targetWPM = 300, currentWPM = 0,
       isDragging = False, lastDragTime = 4000, dragStartWPM = 500,
       dragRef = None,
       wordIndexUI = 0, isPlayingUI = True, showSettings = False, displayWPM = 400,
       fontSize = 64, isBraking = False, progressCalls = [] \<rparr>"
  by (simp add: demoBraked_def demoStart_eval handlePointerUp_def handlePointerMove_def
      demoSettings_def Math_round_def Let_def consts_defs)

lemma half4: "\<lfloor>400 - 400 * (1 / 2 :: real) ^ 4\<rfloor> = 375"
  by (simp add: power_divide)

lemma demoFrame1_eval: "loop demoWords demoSettings ''book'' 1000 demoStart = demoFrame1"
  by (simp add: demoFrame1_def demoStart_eval) (simp add: loop_eval_defs)

lemma demoFrame2_eval: "loop demoWords demoSettings ''book'' 1750 demoFrame1 = demoFrame2"
  by (simp add: demoFrame1_def demoFrame2_def demoStart_eval) (simp add: loop_eval_defs half4)

lemma demoFrame3_eval: "loop demoWords demoSettings ''book'' 2500 demoFrame2 = demoFrame3"
  by (simp add: demoFrame3_def demoFrame2_def demoStart_eval) (simp add: loop_eval_defs)

lemma demoFrames_eval:
  "frames demoWords demoSettings ''book'' [1000, 1750, 2500] demoStart =
     [demoFrame1, demoFrame2, demoFrame3]"
  by (simp add: demoFrame1_eval demoFrame2_eval demoFrame3_eval)

subsection \<open>Helper lemmas: cadence\<close>

lemma slice_last_last: "word \<noteq> [] \<Longrightarrow> slice_last word = [last word]"
  unfolding slice_last_def
  by (metis append_butlast_last_id length_butlast append_eq_conv_conj)

lemma keptChar_iff:
  "keptChar c \<longleftrightarrow>
     c \<in> set ''abcdefghijklmnopqrstuvwxyzABCDEFGHIJKLMNOPQRSTUVWXYZ0123456789.,!?;:''"
  by (cases c) (simp add: keptChar_def Let_def)

lemma getWordWeight_Some:
  "getWordWeight (Some word) =
     (if word = [] then 1
      else if last word \<in> {CHR ''.'', CHR ''!'', CHR ''?''} then 22 / 10
      else if last word \<in> {CHR '','', CHR '';'', CHR '':''} then 15 / 10
      else if length (filter keptChar word) < 4 then 8 / 10
      else if length (filter keptChar word) > 8 then 11 / 10
      else 1)"
  by (simp add: getWordWeight_def slice_last_last Let_def)

subsection \<open>Helper lemmas: which fields each step touches\<close>

lemma stopPlayback_idle: "\<not> isPlaying s \<Longrightarrow> stopPlayback b s = s"
  by (simp add: stopPlayback_def)

lemma stopPlayback_playing:
  "isPlaying s \<Longrightarrow>
     stopPlayback b s =
       s\<lparr> isPlaying := False, wordIndex := max 0 (wordIndex s - REWIND_COUNT),
          wordIndexUI := max 0 (wordIndex s - REWIND_COUNT),
          progressCalls := progressCalls s @ [(b, max 0 (wordIndex s - REWIND_COUNT))],
          isPlayingUI := False \<rparr>"
  by (simp add: stopPlayback_def Let_def)

lemma isPlaying_stopPlayback: "\<not> isPlaying (stopPlayback b s)"
  by (simp add: stopPlayback_def Let_def)

lemma loop_idle:
  "\<not> isPlaying s \<Longrightarrow>
     loop ws st b t s =
       s\<lparr> lastFrameTime := 0, currentWPM := 0, displayWPM := targetWPM s, isBraking := False \<rparr>"
  by (simp add: loop_def Let_def)

lemma loop_playing:
  "isPlaying s \<Longrightarrow>
     loop ws st b t s =
       (if currentWPM (updateSpeed st t (s\<lparr>lastFrameTime := t\<rparr>)) > 0
        then advanceWord ws st b (deltaTime t s) (updateSpeed st t (s\<lparr>lastFrameTime := t\<rparr>))
        else updateSpeed st t (s\<lparr>lastFrameTime := t\<rparr>))"
  by (simp add: loop_def Let_def)

lemma autoRevLogic_fields:
  "isPlaying (snd (autoRevLogic st t s)) = isPlaying s"
  "wordIndex (snd (autoRevLogic st t s)) = wordIndex s"
  "accumulatedTime (snd (autoRevLogic st t s)) = accumulatedTime s"
  "progressCalls (snd (autoRevLogic st t s)) = progressCalls s"
  "dragStartWPM (snd (autoRevLogic st t s)) = dragStartWPM s"
  "startTime (snd (autoRevLogic st t s)) = startTime s"
  "isDragging (snd (autoRevLogic st t s)) = isDragging s"
  "lastDragTime (snd (autoRevLogic st t s)) = lastDragTime s"
  "lastFrameTime (snd (autoRevLogic st t s)) = lastFrameTime s"
  by (simp_all add: autoRevLogic_def Let_def)

lemma updateSpeed_fields:
  "isPlaying (updateSpeed st t s) = isPlaying s"
  "wordIndex (updateSpeed st t s) = wordIndex s"
  "accumulatedTime (updateSpeed st t s) = accumulatedTime s"
  "progressCalls (updateSpeed st t s) = progressCalls s"
  "dragStartWPM (updateSpeed st t s) = dragStartWPM s"
  "startTime (updateSpeed st t s) = startTime s"
  "isDragging (updateSpeed st t s) = isDragging s"
  "lastDragTime (updateSpeed st t s) = lastDragTime s"
  "lastFrameTime (updateSpeed st t s) = lastFrameTime s"
  by (simp_all add: updateSpeed_def Let_def split_beta autoRevLogic_fields)

lemma updateSpeed_targetWPM:
  "targetWPM (updateSpeed st t s) = targetWPM (snd (autoRevLogic st t s))"
  by (simp add: updateSpeed_def Let_def split_beta)

lemma updateSpeed_currentWPM:
  "currentWPM (updateSpeed st t s) =
     of_int \<lfloor>fst (autoRevLogic st t s) * rampEase t s\<rfloor>"
  by (simp add: updateSpeed_def Let_def split_beta)

lemma advanceWord_fields:
  "targetWPM (advanceWord ws st b d s) = targetWPM s"
  "dragStartWPM (advanceWord ws st b d s) = dragStartWPM s"
  "currentWPM (advanceWord ws st b d s) = currentWPM s"
  "startTime (advanceWord ws st b d s) = startTime s"
  "isDragging (advanceWord ws st b d s) = isDragging s"
  "lastDragTime (advanceWord ws st b d s) = lastDragTime s"
  "lastFrameTime (advanceWord ws st b d s) = lastFrameTime s"
  by (simp_all add: advanceWord_def stopPlayback_def Let_def)

lemma loop_fields:
  "dragStartWPM (loop ws st b t s) = dragStartWPM s"
  "startTime (loop ws st b t s) = startTime s"
  "isDragging (loop ws st b t s) = isDragging s"
  "lastDragTime (loop ws st b t s) = lastDragTime s"
  by (cases "isPlaying s"; simp add: loop_idle loop_playing advanceWord_fields updateSpeed_fields)+

lemma loop_targetWPM:
  "isPlaying s \<Longrightarrow>
     targetWPM (loop ws st b t s) = targetWPM (snd (autoRevLogic st t (s\<lparr>lastFrameTime := t\<rparr>)))"
  by (simp add: loop_playing advanceWord_fields updateSpeed_targetWPM)

lemma loop_currentWPM:
  "isPlaying s \<Longrightarrow>
     currentWPM (loop ws st b t s) =
       of_int \<lfloor>fst (autoRevLogic st t (s\<lparr>lastFrameTime := t\<rparr>)) * rampEase t (s\<lparr>lastFrameTime := t\<rparr>)\<rfloor>"
  by (simp add: loop_playing advanceWord_fields updateSpeed_currentWPM)

subsection \<open>Helper lemmas: the word index\<close>

lemma advanceWord_wordIndex_le:
  "wordIndex (advanceWord ws st b d s) \<le> wordIndex s + 1"
  by (simp add: advanceWord_def stopPlayback_def Let_def REWIND_COUNT_def)

lemma loop_wordIndex_le: "wordIndex (loop ws st b t s) \<le> wordIndex s + 1"
proof (cases "isPlaying s")
  case False
  then show ?thesis by (simp add: loop_idle)
next
  case True
  let ?s2 = "updateSpeed st t (s\<lparr>lastFrameTime := t\<rparr>)"
  have "wordIndex (advanceWord ws st b (deltaTime t s) ?s2) \<le> wordIndex ?s2 + 1"
    by (rule advanceWord_wordIndex_le)
  then show ?thesis using True
    by (simp add: loop_playing updateSpeed_fields)
qed

lemma advanceWord_inv:
  "0 \<le> wordIndex s \<Longrightarrow> wordIndex s < int (length ws) \<Longrightarrow>
     0 \<le> wordIndex (advanceWord ws st b d s) \<and>
     wordIndex (advanceWord ws st b d s) < int (length ws)"
  by (auto simp add: advanceWord_def stopPlayback_def Let_def REWIND_COUNT_def)

lemma loop_inv:
  assumes "0 \<le> wordIndex s" "wordIndex s < int (length ws)"
  shows "0 \<le> wordIndex (loop ws st b t s) \<and> wordIndex (loop ws st b t s) < int (length ws)"
proof (cases "isPlaying s")
  case False
  with assms show ?thesis by (simp add: loop_idle)
next
  case True
  let ?s2 = "updateSpeed st t (s\<lparr>lastFrameTime := t\<rparr>)"
  have "0 \<le> wordIndex ?s2" "wordIndex ?s2 < int (length ws)"
    using assms by (simp_all add: updateSpeed_fields)
  from advanceWord_inv [OF this] show ?thesis
    using True assms by (simp add: loop_playing updateSpeed_fields)
qed

lemma stopPlayback_inv:
  "0 \<le> wordIndex s \<Longrightarrow> wordIndex s < int (length ws) \<Longrightarrow>
     0 \<le> wordIndex (stopPlayback b s) \<and> wordIndex (stopPlayback b s) < int (length ws)"
  by (auto simp add: stopPlayback_def Let_def REWIND_COUNT_def)

lemma startPlayback_inv:
  "0 \<le> wordIndex s \<Longrightarrow> wordIndex s < int (length ws) \<Longrightarrow>
     0 \<le> wordIndex (startPlayback ws x y n1 n2 s) \<and>
     wordIndex (startPlayback ws x y n1 n2 s) < int (length ws)"
  by (auto simp add: startPlayback_def Let_def)

lemma handlePointerMove_wordIndex: "wordIndex (handlePointerMove x y n s) = wordIndex s"
  by (simp add: handlePointerMove_def Let_def split: option.splits)

subsection \<open>Helper lemmas: Stop inside the loop\<close>

lemma advanceWord_stops_iff:
  "isPlaying s \<Longrightarrow>
     \<not> isPlaying (advanceWord ws st b d s) \<longleftrightarrow>
       (msForThisWord ws st s \<le> accumulatedTime s + d \<and> int (length ws) \<le> wordIndex s + 1)"
  by (simp add: advanceWord_def Let_def isPlaying_stopPlayback)

lemma advanceWord_stop:
  "isPlaying s \<Longrightarrow> \<not> isPlaying (advanceWord ws st b d s) \<Longrightarrow>
     wordIndex (advanceWord ws st b d s) = max 0 (wordIndex s - REWIND_COUNT) \<and>
     progressCalls (advanceWord ws st b d s) =
       progressCalls s @ [(b, max 0 (wordIndex s - REWIND_COUNT))]"
  by (simp add: advanceWord_def stopPlayback_def Let_def split: if_splits)

lemma advanceWord_run:
  "isPlaying (advanceWord ws st b d s) \<Longrightarrow>
     progressCalls (advanceWord ws st b d s) = progressCalls s"
  by (simp add: advanceWord_def stopPlayback_def Let_def split: if_splits)

lemma loop_stops_iff:
  assumes "isPlaying s"
  shows "\<not> isPlaying (loop ws st b t s) \<longleftrightarrow>
     (0 < currentWPM (updateSpeed st t (s\<lparr>lastFrameTime := t\<rparr>)) \<and>
      msForThisWord ws st (updateSpeed st t (s\<lparr>lastFrameTime := t\<rparr>))
        \<le> accumulatedTime s + deltaTime t s \<and>
      int (length ws) \<le> wordIndex s + 1)"
  using assms advanceWord_stops_iff [of "updateSpeed st t (s\<lparr>lastFrameTime := t\<rparr>)" ws st b "deltaTime t s"]
  by (simp add: loop_playing updateSpeed_fields)

lemma loop_stop:
  assumes "isPlaying s" "\<not> isPlaying (loop ws st b t s)"
  shows "wordIndex (loop ws st b t s) = max 0 (wordIndex s - REWIND_COUNT) \<and>
     progressCalls (loop ws st b t s) =
       progressCalls s @ [(b, max 0 (wordIndex s - REWIND_COUNT))]"
proof -
  let ?s2 = "updateSpeed st t (s\<lparr>lastFrameTime := t\<rparr>)"
  have p: "isPlaying ?s2" using assms(1) by (simp add: updateSpeed_fields)
  have c: "0 < currentWPM ?s2" using assms by (simp add: loop_playing updateSpeed_fields split: if_splits)
  then have l: "loop ws st b t s = advanceWord ws st b (deltaTime t s) ?s2"
    using assms(1) by (simp add: loop_playing)
  from advanceWord_stop [OF p, of ws st b "deltaTime t s"] assms(2) show ?thesis
    by (simp add: l updateSpeed_fields)
qed

lemma loop_run:
  assumes "isPlaying (loop ws st b t s)"
  shows "progressCalls (loop ws st b t s) = progressCalls s"
proof (cases "isPlaying s")
  case False then show ?thesis by (simp add: loop_idle)
next
  case True
  let ?s2 = "updateSpeed st t (s\<lparr>lastFrameTime := t\<rparr>)"
  show ?thesis
  proof (cases "0 < currentWPM ?s2")
    case False
    with True show ?thesis by (simp add: loop_playing updateSpeed_fields)
  next
    case c: True
    then have l: "loop ws st b t s = advanceWord ws st b (deltaTime t s) ?s2"
      using True by (simp add: loop_playing)
    from advanceWord_run [of ws st b "deltaTime t s" ?s2] assms show ?thesis
      by (simp add: l updateSpeed_fields)
  qed
qed

subsection \<open>Helper lemmas: the two ease-out curves\<close>

lemma ease_mono:
  fixes p q :: real
  assumes "p \<le> q" "q \<le> 1"
  shows "1 - (1 - p) ^ n \<le> 1 - (1 - q) ^ n"
proof -
  have "(1 - q) ^ n \<le> (1 - p) ^ n"
    using assms by (intro power_mono) simp_all
  then show ?thesis by simp
qed

lemma ease_ge_0:
  fixes p :: real
  assumes "0 \<le> p" "p \<le> 1"
  shows "0 \<le> 1 - (1 - p) ^ n"
proof -
  have "(1 - p) ^ n \<le> 1" using assms by (intro power_le_one) simp_all
  then show ?thesis by simp
qed

lemma ease_le_1:
  fixes p :: real
  assumes "p \<le> 1"
  shows "1 - (1 - p) ^ n \<le> 1"
  using assms by simp

lemma min_div_mono:
  fixes x y c :: real
  shows "x \<le> y \<Longrightarrow> 0 < c \<Longrightarrow> min (x / c) 1 \<le> min (y / c) 1"
  by (intro min.mono divide_right_mono) simp_all

lemma rampEase_mono: "t \<le> t' \<Longrightarrow> rampEase t s \<le> rampEase t' s"
  unfolding rampEase_def Let_def
  by (intro ease_mono min_div_mono) (simp_all add: RAMP_UP_DURATION_MS_def)

lemma rampEase_le_1: "rampEase t s \<le> 1"
  unfolding rampEase_def Let_def by (intro ease_le_1) simp

lemma rampEase_ge_0: "startTime s \<le> t \<Longrightarrow> 0 \<le> rampEase t s"
  unfolding rampEase_def Let_def
  by (intro ease_ge_0) (simp_all add: RAMP_UP_DURATION_MS_def)

lemma rampEase_start: "rampEase (startTime s) s = 0"
  by (simp add: rampEase_def)

lemma rampEase_full: "startTime s + RAMP_UP_DURATION_MS \<le> t \<Longrightarrow> rampEase t s = 1"
  by (simp add: rampEase_def RAMP_UP_DURATION_MS_def Let_def min_def)

lemma rampEase_lastFrameTime: "rampEase t (s\<lparr>lastFrameTime := x\<rparr>) = rampEase t s"
  by (simp add: rampEase_def)

lemma revProgress_le_1: "revProgress d \<le> 1"
  by (simp add: revProgress_def)

lemma revProgress_mono: "d \<le> d' \<Longrightarrow> revProgress d \<le> revProgress d'"
  unfolding revProgress_def
  by (intro min_div_mono) (simp_all add: AUTO_REV_DURATION_MS_def)

lemma revProgress_pos: "AUTO_REV_DELAY_MS < d \<Longrightarrow> 0 < revProgress d"
  by (simp add: revProgress_def AUTO_REV_DURATION_MS_def)

lemma revProgress_clamp:
  "AUTO_REV_DELAY_MS < d \<Longrightarrow>
     revProgress d = max 0 (min 1 ((d - AUTO_REV_DELAY_MS) / AUTO_REV_DURATION_MS))"
  by (simp add: revProgress_def AUTO_REV_DURATION_MS_def min_def max_def)

lemma revProgress_full:
  "AUTO_REV_DELAY_MS + AUTO_REV_DURATION_MS \<le> d \<Longrightarrow> revProgress d = 1"
  by (simp add: revProgress_def AUTO_REV_DURATION_MS_def min_def)

subsection \<open>Helper lemmas: the effective target\<close>

lemma autoRevLogic_cruise:
  "dragStartWPM s \<le> targetWPM s \<Longrightarrow> autoRevLogic st t s = (targetWPM s, s)"
  by (simp add: autoRevLogic_def)

lemma autoRevLogic_wait:
  "t - lastDragTime s \<le> AUTO_REV_DELAY_MS \<Longrightarrow> autoRevLogic st t s = (targetWPM s, s)"
  by (simp add: autoRevLogic_def Let_def)

lemma autoRevLogic_rev:
  assumes "autoRev st" "\<not> isDragging s" "targetWPM s < dragStartWPM s"
    "AUTO_REV_DELAY_MS < t - lastDragTime s"
  shows "autoRevLogic st t s =
     (targetWPM s + (dragStartWPM s - targetWPM s) * (1 - (1 - revProgress (t - lastDragTime s)) ^ 3),
      if 99 / 100 \<le> revProgress (t - lastDragTime s)
      then s\<lparr>targetWPM := dragStartWPM s\<rparr> else s)"
  using assms by (simp add: autoRevLogic_def Let_def)

lemma autoRevLogic_lastFrameTime:
  "fst (autoRevLogic st t (s\<lparr>lastFrameTime := x\<rparr>)) = fst (autoRevLogic st t s)"
  "targetWPM (snd (autoRevLogic st t (s\<lparr>lastFrameTime := x\<rparr>))) = targetWPM (snd (autoRevLogic st t s))"
  by (simp_all add: autoRevLogic_def Let_def)

lemma autoRevLogic_fst_mono:
  assumes "autoRev st" "\<not> isDragging s" "targetWPM s < dragStartWPM s" "t \<le> t'"
  shows "fst (autoRevLogic st t s) \<le> fst (autoRevLogic st t' s)"
proof -
  let ?d = "t - lastDragTime s" and ?d' = "t' - lastDragTime s"
  let ?c = "dragStartWPM s - targetWPM s"
  have c: "0 \<le> ?c" using assms by simp
  show ?thesis
  proof (cases "AUTO_REV_DELAY_MS < ?d")
    case True
    then have T': "AUTO_REV_DELAY_MS < ?d'" using assms by simp
    have "1 - (1 - revProgress ?d) ^ 3 \<le> 1 - (1 - revProgress ?d') ^ 3"
      using assms by (intro ease_mono revProgress_mono revProgress_le_1) simp
    then have "?c * (1 - (1 - revProgress ?d) ^ 3) \<le> ?c * (1 - (1 - revProgress ?d') ^ 3)"
      using c by (rule mult_left_mono)
    then show ?thesis
      by (simp add: autoRevLogic_rev [OF assms(1-3) True] autoRevLogic_rev [OF assms(1-3) T'])
  next
    case False
    then have w: "autoRevLogic st t s = (targetWPM s, s)" by (simp add: autoRevLogic_wait)
    show ?thesis
    proof (cases "AUTO_REV_DELAY_MS < ?d'")
      case True
      have "0 \<le> 1 - (1 - revProgress ?d') ^ 3"
        using revProgress_pos [OF True] by (intro ease_ge_0 revProgress_le_1) simp
      then have "0 \<le> ?c * (1 - (1 - revProgress ?d') ^ 3)"
        using c by simp
      then show ?thesis by (simp add: w autoRevLogic_rev [OF assms(1-3) True])
    next
      case False
      then show ?thesis by (simp add: w autoRevLogic_wait)
    qed
  qed
qed

lemma autoRevLogic_fst_bounds:
  assumes "targetWPM s \<le> dragStartWPM s"
  shows "targetWPM s \<le> fst (autoRevLogic st t s) \<and> fst (autoRevLogic st t s) \<le> dragStartWPM s"
proof (cases "autoRev st \<and> \<not> isDragging s \<and> targetWPM s < dragStartWPM s \<and> AUTO_REV_DELAY_MS < t - lastDragTime s")
  case False
  then show ?thesis using assms by (auto simp add: autoRevLogic_def Let_def)
next
  case True
  let ?d = "t - lastDragTime s"
  let ?c = "dragStartWPM s - targetWPM s"
  let ?e = "1 - (1 - revProgress ?d) ^ 3"
  have c: "0 \<le> ?c" using assms by simp
  have e0: "0 \<le> ?e" using True revProgress_pos [of ?d] by (intro ease_ge_0 revProgress_le_1) simp
  have e1: "?e \<le> 1" by (intro ease_le_1 revProgress_le_1)
  have lo: "0 \<le> ?c * ?e" using c e0 by simp
  have "?c * ?e \<le> ?c * 1" using e1 c by (rule mult_left_mono)
  then have hi: "targetWPM s + ?c * ?e \<le> dragStartWPM s" by simp
  have "fst (autoRevLogic st t s) = targetWPM s + ?c * ?e"
    using True by (simp add: autoRevLogic_rev)
  with lo hi show ?thesis by simp
qed

subsection \<open>Helper lemmas: the ramp over successive frames\<close>

lemma frames_cruise:
  assumes "dragStartWPM s = targetWPM s"
    and "\<forall>s' \<in> set (frames ws st b ts s). isPlaying s'"
    and "isPlaying s"
  shows "map currentWPM (frames ws st b ts s) =
           map (\<lambda>t. of_int \<lfloor>targetWPM s * rampEase t s\<rfloor>) ts \<and>
         (\<forall>s' \<in> set (frames ws st b ts s).
            targetWPM s' = targetWPM s \<and> dragStartWPM s' = targetWPM s \<and>
            startTime s' = startTime s)"
  using assms
proof (induction ts arbitrary: s)
  case Nil
  then show ?case by simp
next
  case (Cons t ts)
  let ?s1 = "loop ws st b t s"
  have c: "currentWPM ?s1 = of_int \<lfloor>targetWPM s * rampEase t s\<rfloor>"
    using Cons.prems by (simp add: loop_currentWPM autoRevLogic_cruise rampEase_lastFrameTime)
  have tg: "targetWPM ?s1 = targetWPM s"
    using Cons.prems by (simp add: loop_targetWPM autoRevLogic_cruise)
  have dg: "dragStartWPM ?s1 = targetWPM s" "startTime ?s1 = startTime s"
    using Cons.prems by (simp_all add: loop_fields)
  have p1: "isPlaying ?s1" using Cons.prems(2) by simp
  have r: "\<forall>s' \<in> set (frames ws st b ts ?s1). isPlaying s'" using Cons.prems(2) by simp
  have e: "rampEase t' ?s1 = rampEase t' s" for t'
    by (simp add: rampEase_def dg)
  from Cons.IH [of ?s1] dg tg r p1
  have "map currentWPM (frames ws st b ts ?s1) =
           map (\<lambda>t. of_int \<lfloor>targetWPM s * rampEase t s\<rfloor>) ts \<and>
         (\<forall>s' \<in> set (frames ws st b ts ?s1).
            targetWPM s' = targetWPM s \<and> dragStartWPM s' = targetWPM s \<and>
            startTime s' = startTime s)"
    by (simp add: e)
  with c tg dg show ?case by simp
qed

lemma rampSpeed_mono:
  assumes "0 \<le> T" "t \<le> t'"
  shows "(of_int \<lfloor>T * rampEase t s\<rfloor> :: real) \<le> of_int \<lfloor>T * rampEase t' s\<rfloor>"
proof -
  have "T * rampEase t s \<le> T * rampEase t' s"
    using rampEase_mono [OF assms(2)] assms(1) by (rule mult_left_mono)
  then show ?thesis by (simp add: floor_mono)
qed

lemma rampSpeed_le:
  assumes "0 \<le> T"
  shows "(of_int \<lfloor>T * rampEase t s\<rfloor> :: real) \<le> T"
proof -
  have "T * rampEase t s \<le> T * 1"
    using rampEase_le_1 assms by (rule mult_left_mono)
  then have "T * rampEase t s \<le> T" by simp
  moreover have "of_int \<lfloor>T * rampEase t s\<rfloor> \<le> T * rampEase t s" by (rule of_int_floor_le)
  ultimately show ?thesis by linarith
qed

lemma sorted_map_mono:
  assumes "sorted ts" "\<And>x y. x \<le> y \<Longrightarrow> f x \<le> f y"
  shows "sorted (map f ts)"
  using assms by (induction ts) (auto)

subsection \<open>Helper lemmas: a drag move\<close>

lemma handlePointerMove_rule:
  assumes "isPlaying r" "dragRef r = Some d"
  shows "targetWPM (handlePointerMove cx cy now r) =
           Math_round (min (max (startWPM d + (cx - startX d) * 2) MIN_WPM) MAX_WPM)"
    and "dragStartWPM (handlePointerMove cx cy now r) =
           (if startWPM d < min (max (startWPM d + (cx - startX d) * 2) MIN_WPM) MAX_WPM
            then Math_round (min (max (startWPM d + (cx - startX d) * 2) MIN_WPM) MAX_WPM)
            else dragStartWPM r)"
    and "dragRef (handlePointerMove cx cy now r) = dragRef r"
    and "isPlaying (handlePointerMove cx cy now r)"
  using assms by (simp_all add: handlePointerMove_def Let_def)

lemma newWPM_gt_iff:
  fixes dx :: real
  shows "400 < min (max (400 + dx * 2) MIN_WPM) MAX_WPM \<longleftrightarrow> 0 < dx"
  by (auto simp add: MIN_WPM_def MAX_WPM_def min_def max_def)

section \<open>The claims\<close>

subsection \<open>C1: a drag session\<close>

text \<open>
  C1, as stated, fails. In the session started at 400 WPM with the pointer at x = 100, the
  move to x = 150 sets target and cruise setpoint to 500; the following move to x = 120
  (net +20 px) sets the target to 440 and, because 440 exceeds the session-start speed 400,
  takes the accelerating branch again, so the cruise setpoint \<open>dragStartWPM\<close> is
  overwritten and is no longer 500.
\<close>

theorem C1_counterexample:
  "targetWPM demoStart = 400 \<and>
   targetWPM (handlePointerMove 150 200 1100 demoStart) = 500 \<and>
   dragStartWPM (handlePointerMove 150 200 1100 demoStart) = 500 \<and>
   targetWPM (handlePointerMove 120 200 1200 (handlePointerMove 150 200 1100 demoStart)) = 440 \<and>
   dragStartWPM (handlePointerMove 120 200 1200 (handlePointerMove 150 200 1100 demoStart)) \<noteq> 500"
  by (simp add: demoStart_eval handlePointerMove_def Math_round_def Let_def consts_defs)

text \<open>
  C1 (amended): in a drag session started at \<open>targetWPM = 400\<close>, a move with dx = +50 px
  sets \<open>targetWPM = 500\<close> and the cruise setpoint to 500; a following move with net
  dx = +20 px sets \<open>targetWPM = 440\<close> and the cruise setpoint to 440, and one with net
  dx = -20 px sets \<open>targetWPM = 360\<close> and leaves the cruise setpoint at 500. For every
  net dx the following move sets \<open>targetWPM\<close> to
  \<open>round (clamp (400 + 2 * dx) MIN_WPM MAX_WPM)\<close>; it sets the cruise setpoint to the same
  value exactly when the clamped speed exceeds the session-start speed 400, that is exactly
  when \<open>dx > 0\<close>, and otherwise leaves it at 500. In general, a move on a playing reader
  with an open drag session compares the clamped new speed with the session-start speed
  \<open>startWPM\<close>: above it, target and cruise setpoint both become the rounded new speed;
  otherwise only the target does and the cruise setpoint is untouched. The move keeps the
  session open and the reader playing.
\<close>

theorem C1_drag_session:
  assumes "targetWPM s = 400"
  shows "(let s0 = startPlayback ws x y n1 n2 s;
             s1 = handlePointerMove (x + 50) y1 t1 s0;
             s2 = handlePointerMove (x + 20) y2 t2 s1;
             s3 = handlePointerMove (x - 20) y3 t3 s1;
             newWPM = min (max (400 + dx * 2) MIN_WPM) MAX_WPM;
             s4 = handlePointerMove (x + dx) y4 t4 s1
         in targetWPM s0 = 400 \<and> dragStartWPM s0 = 400 \<and>
            targetWPM s1 = 500 \<and> dragStartWPM s1 = 500 \<and>
            targetWPM s2 = 440 \<and> dragStartWPM s2 = 440 \<and>
            targetWPM s3 = 360 \<and> dragStartWPM s3 = 500 \<and>
            targetWPM s4 = Math_round newWPM \<and>
            dragStartWPM s4 = (if 400 < newWPM then Math_round newWPM else 500) \<and>
            (400 < newWPM \<longleftrightarrow> 0 < dx)) \<and>
         (isPlaying r \<and> dragRef r = Some d \<longrightarrow>
            (let w = min (max (startWPM d + (cx - startX d) * 2) MIN_WPM) MAX_WPM;
                 r' = handlePointerMove cx cy now r
             in targetWPM r' = Math_round w \<and>
                dragStartWPM r' = (if startWPM d < w then Math_round w else dragStartWPM r) \<and>
                dragRef r' = dragRef r \<and> isPlaying r'))"
proof -
  let ?s0 = "startPlayback ws x y n1 n2 s"
  let ?s1 = "handlePointerMove (x + 50) y1 t1 ?s0"
  let ?d = "\<lparr> startX = x, startY = y, startWPM = 400, startFontSize = fontSize ?s0 \<rparr>"
  have s0: "isPlaying ?s0" "dragRef ?s0 = Some ?d" "targetWPM ?s0 = 400" "dragStartWPM ?s0 = 400"
    using assms by (simp_all add: startPlayback_def Let_def)
  have s1: "isPlaying ?s1" "dragRef ?s1 = Some ?d" "targetWPM ?s1 = 500" "dragStartWPM ?s1 = 500"
    using handlePointerMove_rule [OF s0(1,2), of "x + 50" y1 t1]
    by (simp_all add: s0 Math_round_def consts_defs)
  have mv: "targetWPM (handlePointerMove (x + e) yy tt ?s1) =
              Math_round (min (max (400 + e * 2) MIN_WPM) MAX_WPM) \<and>
            dragStartWPM (handlePointerMove (x + e) yy tt ?s1) =
              (if 400 < min (max (400 + e * 2) MIN_WPM) MAX_WPM
               then Math_round (min (max (400 + e * 2) MIN_WPM) MAX_WPM) else 500)" for e yy tt
    using handlePointerMove_rule [OF s1(1,2), of "x + e" yy tt] by (simp add: s1)
  have s2: "targetWPM (handlePointerMove (x + 20) y2 t2 ?s1) = 440 \<and>
            dragStartWPM (handlePointerMove (x + 20) y2 t2 ?s1) = 440"
    using mv [of 20 y2 t2] by (simp add: Math_round_def consts_defs)
  have s3: "targetWPM (handlePointerMove (x - 20) y3 t3 ?s1) = 360 \<and>
            dragStartWPM (handlePointerMove (x - 20) y3 t3 ?s1) = 500"
    using mv [of "- 20" y3 t3] by (simp add: Math_round_def consts_defs)
  have g: "isPlaying r \<and> dragRef r = Some d \<longrightarrow>
            (let w = min (max (startWPM d + (cx - startX d) * 2) MIN_WPM) MAX_WPM;
                 r' = handlePointerMove cx cy now r
             in targetWPM r' = Math_round w \<and>
                dragStartWPM r' = (if startWPM d < w then Math_round w else dragStartWPM r) \<and>
                dragRef r' = dragRef r \<and> isPlaying r')"
    using handlePointerMove_rule [of r d cx cy now] by (simp add: Let_def)
  show ?thesis
    unfolding Let_def
    using s0(3,4) s1(3,4) s2 s3 mv [of dx y4 t4] newWPM_gt_iff [of dx] g [unfolded Let_def]
    by blast
qed

theorem C1_drag_session_witness:
  "targetWPM (initReader 0) = 400 \<and>
   dragStartWPM (handlePointerMove 120 200 1200 (handlePointerMove 150 200 1100 demoStart)) = 440 \<and>
   targetWPM (handlePointerMove 110 200 1200 (handlePointerMove 150 200 1100 demoStart)) = 420 \<and>
   dragStartWPM (handlePointerMove 110 200 1200 (handlePointerMove 150 200 1100 demoStart)) = 420 \<and>
   targetWPM (handlePointerMove 100 200 1200 (handlePointerMove 150 200 1100 demoStart)) = 400 \<and>
   dragStartWPM (handlePointerMove 100 200 1200 (handlePointerMove 150 200 1100 demoStart)) = 500 \<and>
   isPlaying demoStart \<and>
   dragRef demoStart =
     Some \<lparr> startX = 100, startY = 200, startWPM = 400, startFontSize = 64 \<rparr> \<and>
   targetWPM (handlePointerMove 90 200 1100 demoStart) = 380 \<and>
   dragStartWPM (handlePointerMove 90 200 1100 demoStart) = 400"
proof -
  have h: "targetWPM (initReader 0) = 400" by (simp add: initReader_def consts_defs)
  have p: "isPlaying demoStart"
    "dragRef demoStart = Some \<lparr> startX = 100, startY = 200, startWPM = 400, startFontSize = 64 \<rparr>"
    "dragStartWPM demoStart = 400"
    by (simp_all add: demoStart_eval)
  note T10 = C1_drag_session [OF h, where ws = demoWords and x = 100 and y = 200 and ?n1.0 = 1000
      and ?n2.0 = 1000 and ?y1.0 = 200 and ?t1.0 = 1100 and ?y2.0 = 200 and ?t2.0 = 1200
      and ?y4.0 = 200 and ?t4.0 = 1200 and dx = 10 and r = demoStart and cx = 90 and cy = 200
      and now = 1100
      and d = "\<lparr> startX = 100, startY = 200, startWPM = 400, startFontSize = 64 \<rparr>",
      folded demoStart_def, unfolded Let_def]
  note T0 = C1_drag_session [OF h, where ws = demoWords and x = 100 and y = 200 and ?n1.0 = 1000
      and ?n2.0 = 1000 and ?y1.0 = 200 and ?t1.0 = 1100 and ?y4.0 = 200 and ?t4.0 = 1200
      and dx = 0, folded demoStart_def, unfolded Let_def]
  have a: "dragStartWPM (handlePointerMove 120 200 1200 (handlePointerMove 150 200 1100 demoStart)) = 440"
    using T10 [THEN conjunct1] by simp
  have b: "targetWPM (handlePointerMove 110 200 1200 (handlePointerMove 150 200 1100 demoStart)) = 420 \<and>
   dragStartWPM (handlePointerMove 110 200 1200 (handlePointerMove 150 200 1100 demoStart)) = 420"
    using T10 [THEN conjunct1] by (simp add: Math_round_def consts_defs)
  have c: "targetWPM (handlePointerMove 100 200 1200 (handlePointerMove 150 200 1100 demoStart)) = 400 \<and>
   dragStartWPM (handlePointerMove 100 200 1200 (handlePointerMove 150 200 1100 demoStart)) = 500"
    using T0 [THEN conjunct1] by (simp add: Math_round_def consts_defs)
  have e: "targetWPM (handlePointerMove 90 200 1100 demoStart) = 380 \<and>
   dragStartWPM (handlePointerMove 90 200 1100 demoStart) = 400"
    using T10 [THEN conjunct2] p by (simp add: Math_round_def consts_defs)
  from h p(1,2) a b c e show ?thesis by blast
qed

subsection \<open>C2: word advance per frame\<close>

text \<open>
  C2, as stated, fails. \<open>demoFrame2\<close> is the session \<open>demoStart\<close> after its frames at
  1000 and 1750 (lemmas \<open>demoFrame1_eval\<close>, \<open>demoFrame2_eval\<close>). In the frame at 2500
  the speed is 400 WPM, the dwell 150 ms, and the accumulated time reaches 1340 ms, eight
  whole dwells. The word index advances by one, not by eight, and 1190 ms stay in
  \<open>accumulatedTime\<close>.
\<close>

theorem C2_counterexample:
  "isPlaying demoFrame2 \<and>
   accumulatedTime demoFrame2 + deltaTime 2500 demoFrame2 = 1340 \<and>
   currentWPM (loop demoWords demoSettings ''book'' 2500 demoFrame2) = 400 \<and>
   msForThisWord demoWords demoSettings (loop demoWords demoSettings ''book'' 2500 demoFrame2) =
     150 \<and>
   wordIndex (loop demoWords demoSettings ''book'' 2500 demoFrame2) = wordIndex demoFrame2 + 1 \<and>
   wordIndex (loop demoWords demoSettings ''book'' 2500 demoFrame2) \<noteq> wordIndex demoFrame2 + 8 \<and>
   accumulatedTime (loop demoWords demoSettings ''book'' 2500 demoFrame2) = 1190"
  by (simp add: demoFrame3_eval)
    (simp add: demoFrame2_def demoFrame3_def demoStart_eval msForThisWord_def deltaTime_def
      demoSettings_def Let_def)

text \<open>
  C2 (amended): one per-frame update advances \<open>wordIndex\<close> by at most one. While
  playing with \<open>currentWPM > 0\<close>, after \<open>deltaTime\<close> is added to
  \<open>accumulatedTime\<close>: if the sum reaches the word dwell and the next index is inside
  the sequence, one dwell is subtracted and the index advances by exactly one; if the sum
  is below the dwell, the index stays and the sum is kept. With \<open>currentWPM \<le> 0\<close>
  neither changes.
\<close>

theorem C2_single_advance:
  "wordIndex (loop ws st b t s) \<le> wordIndex s + 1 \<and>
   (isPlaying s \<longrightarrow>
      (let s2 = updateSpeed st t (s\<lparr>lastFrameTime := t\<rparr>);
           ms = msForThisWord ws st s2;
           acc = accumulatedTime s + deltaTime t s;
           s' = loop ws st b t s
       in (0 < currentWPM s2 \<and> ms \<le> acc \<and> wordIndex s + 1 < int (length ws) \<longrightarrow>
             wordIndex s' = wordIndex s + 1 \<and> accumulatedTime s' = acc - ms) \<and>
          (0 < currentWPM s2 \<and> acc < ms \<longrightarrow>
             wordIndex s' = wordIndex s \<and> accumulatedTime s' = acc) \<and>
          (currentWPM s2 \<le> 0 \<longrightarrow>
             wordIndex s' = wordIndex s \<and> accumulatedTime s' = accumulatedTime s)))"
proof -
  have "wordIndex (loop ws st b t s) \<le> wordIndex s + 1" by (rule loop_wordIndex_le)
  moreover have "isPlaying s \<Longrightarrow>
      (let s2 = updateSpeed st t (s\<lparr>lastFrameTime := t\<rparr>);
           ms = msForThisWord ws st s2;
           acc = accumulatedTime s + deltaTime t s;
           s' = loop ws st b t s
       in (0 < currentWPM s2 \<and> ms \<le> acc \<and> wordIndex s + 1 < int (length ws) \<longrightarrow>
             wordIndex s' = wordIndex s + 1 \<and> accumulatedTime s' = acc - ms) \<and>
          (0 < currentWPM s2 \<and> acc < ms \<longrightarrow>
             wordIndex s' = wordIndex s \<and> accumulatedTime s' = acc) \<and>
          (currentWPM s2 \<le> 0 \<longrightarrow>
             wordIndex s' = wordIndex s \<and> accumulatedTime s' = accumulatedTime s))"
    by (simp add: loop_playing Let_def advanceWord_def updateSpeed_fields)
  ultimately show ?thesis by blast
qed

theorem C2_single_advance_witness:
  "isPlaying demoFrame2 \<and>
   wordIndex (loop demoWords demoSettings ''book'' 2500 demoFrame2) = wordIndex demoFrame2 + 1 \<and>
   accumulatedTime (loop demoWords demoSettings ''book'' 2500 demoFrame2) = 1340 - 150"
  using C2_single_advance [of demoWords demoSettings "''book''" 2500 demoFrame2]
  by (simp add: demoFrame2_def demoStart_eval) (simp add: loop_eval_defs)

subsection \<open>C3: timing state across Stop\<close>

text \<open>
  C3, as stated, fails. \<open>demoFrame3\<close> is the session \<open>demoStart\<close> after its frames at
  1000, 1750 and 2500 (lemma \<open>demoFrames_eval\<close>). Stopping it leaves
  \<open>accumulatedTime\<close> at 1190 and \<open>lastFrameTime\<close> at 2500.
\<close>

theorem C3_counterexample:
  "isPlaying demoFrame3 \<and>
   accumulatedTime (stopPlayback ''book'' demoFrame3) = 1190 \<and>
   accumulatedTime (stopPlayback ''book'' demoFrame3) \<noteq> 0 \<and>
   lastFrameTime (stopPlayback ''book'' demoFrame3) = 2500 \<and>
   lastFrameTime (stopPlayback ''book'' demoFrame3) \<noteq> 0"
  by (simp add: demoFrame3_def demoStart_eval stopPlayback_def Let_def)

text \<open>
  C3 (amended): Stop itself leaves \<open>accumulatedTime\<close> and \<open>lastFrameTime\<close>
  unchanged. The next per-frame update of the stopped reader sets \<open>lastFrameTime\<close>
  to 0, and Start sets \<open>accumulatedTime\<close> to 0 and \<open>lastFrameTime\<close> to the
  current time, whatever their values were.
\<close>

theorem C3_timing_reset:
  "accumulatedTime (stopPlayback b s) = accumulatedTime s \<and>
   lastFrameTime (stopPlayback b s) = lastFrameTime s \<and>
   lastFrameTime (loop ws st b t (stopPlayback b s)) = 0 \<and>
   accumulatedTime (startPlayback ws x y n1 n2 s') = 0 \<and>
   lastFrameTime (startPlayback ws x y n1 n2 s') = n2"
  by (simp add: loop_idle isPlaying_stopPlayback) (simp add: stopPlayback_def startPlayback_def Let_def)

subsection \<open>C6: Stop is idempotent\<close>

text \<open>
  C6: Stop on a stopped reader returns the state unchanged (so no progress callback is
  recorded), and Stop applied twice equals Stop applied once.
\<close>

theorem C6_stop_idempotent:
  "(\<not> isPlaying s \<longrightarrow> stopPlayback b s = s) \<and>
   stopPlayback b (stopPlayback b s) = stopPlayback b s"
  by (simp add: stopPlayback_idle isPlaying_stopPlayback)

theorem C6_stop_idempotent_witness:
  "\<not> isPlaying (initReader 0) \<and> stopPlayback ''book'' (initReader 0) = initReader 0 \<and>
   progressCalls (stopPlayback ''book'' (initReader 0)) = [] \<and>
   stopPlayback ''book'' (stopPlayback ''book'' demoStart) = stopPlayback ''book'' demoStart \<and>
   progressCalls (stopPlayback ''book'' (stopPlayback ''book'' demoStart)) = [(''book'', 0)]"
  using C6_stop_idempotent [of "initReader 0" "''book''"] C6_stop_idempotent [of demoStart "''book''"]
  by (simp add: initReader_def demoStart_eval stopPlayback_def Let_def REWIND_COUNT_def)

subsection \<open>C8: the cadence weight\<close>

text \<open>
  C8: \<open>getWordWeight\<close> is a function of the token alone. It is 1 for an undefined or
  empty token; 2.2 when the last character is one of \<^verbatim>\<open>. ! ?\<close>; 1.5 when it is one of
  \<^verbatim>\<open>, ; :\<close>; otherwise 0.8, 1.1 or 1.0 as the number of letters, digits and
  \<^verbatim>\<open>. , ! ? ; :\<close> in the token is below 4, above 8 or in between. The five example
  tokens have the weights 2.2, 1.5, 0.8, 1.1 and 1.0.
\<close>

theorem C8_getWordWeight:
  "getWordWeight None = 1 \<and>
   getWordWeight (Some word) =
     (if word = [] then 1
      else if last word \<in> {CHR ''.'', CHR ''!'', CHR ''?''} then 22 / 10
      else if last word \<in> {CHR '','', CHR '';'', CHR '':''} then 15 / 10
      else if length (filter (\<lambda>c. c \<in> set ''abcdefghijklmnopqrstuvwxyzABCDEFGHIJKLMNOPQRSTUVWXYZ0123456789.,!?;:'') word) < 4 then 8 / 10
      else if length (filter (\<lambda>c. c \<in> set ''abcdefghijklmnopqrstuvwxyzABCDEFGHIJKLMNOPQRSTUVWXYZ0123456789.,!?;:'') word) > 8 then 11 / 10
      else 1) \<and>
   getWordWeight (Some ''Hello.'') = 22 / 10 \<and>
   getWordWeight (Some ''cat,'') = 15 / 10 \<and>
   getWordWeight (Some ''the'') = 8 / 10 \<and>
   getWordWeight (Some ''information'') = 11 / 10 \<and>
   getWordWeight (Some ''table'') = 1"
proof -
  have n: "getWordWeight None = 1" by (simp add: getWordWeight_def)
  have g: "getWordWeight (Some word) =
     (if word = [] then 1
      else if last word \<in> {CHR ''.'', CHR ''!'', CHR ''?''} then 22 / 10
      else if last word \<in> {CHR '','', CHR '';'', CHR '':''} then 15 / 10
      else if length (filter (\<lambda>c. c \<in> set ''abcdefghijklmnopqrstuvwxyzABCDEFGHIJKLMNOPQRSTUVWXYZ0123456789.,!?;:'') word) < 4 then 8 / 10
      else if length (filter (\<lambda>c. c \<in> set ''abcdefghijklmnopqrstuvwxyzABCDEFGHIJKLMNOPQRSTUVWXYZ0123456789.,!?;:'') word) > 8 then 11 / 10
      else 1)"
    unfolding getWordWeight_Some keptChar_iff [symmetric] ..
  have e1: "getWordWeight (Some ''Hello.'') = 22 / 10" by (simp add: getWordWeight_Some)
  have e2: "getWordWeight (Some ''cat,'') = 15 / 10" by (simp add: getWordWeight_Some)
  have e3: "getWordWeight (Some ''the'') = 8 / 10" by (simp add: getWordWeight_Some keptChar_def)
  have e4: "getWordWeight (Some ''information'') = 11 / 10" by (simp add: getWordWeight_Some keptChar_def)
  have e5: "getWordWeight (Some ''table'') = 1" by (simp add: getWordWeight_Some keptChar_def)
  from n g e1 e2 e3 e4 e5 show ?thesis by blast
qed

subsection \<open>C5: what a Stop transition does\<close>

text \<open>
  C5: every Stop that takes effect on a playing reader sets \<open>isPlaying\<close> to false,
  rewinds \<open>wordIndex\<close> to \<open>max 0 (wordIndex - REWIND_COUNT)\<close> and records exactly one
  progress callback, with the book id and the rewound index. This holds for
  \<open>stopPlayback\<close> called directly, for the per-frame update (which stops exactly when
  the speed is positive, the accumulated time has reached the dwell and the next index is
  past the last word, and otherwise records no callback), for pointer-up in deadman mode
  and for pointer-down in toggle mode.
\<close>

theorem C5_stop_transition:
  assumes "isPlaying s"
  shows "(let s' = stopPlayback b s
          in \<not> isPlaying s' \<and> wordIndex s' = max 0 (wordIndex s - REWIND_COUNT) \<and>
             progressCalls s' = progressCalls s @ [(b, max 0 (wordIndex s - REWIND_COUNT))]) \<and>
         (let s2 = updateSpeed st t (s\<lparr>lastFrameTime := t\<rparr>);
              s' = loop ws st b t s
          in (\<not> isPlaying s' \<longleftrightarrow>
                (0 < currentWPM s2 \<and>
                 msForThisWord ws st s2 \<le> accumulatedTime s + deltaTime t s \<and>
                 int (length ws) \<le> wordIndex s + 1)) \<and>
             (\<not> isPlaying s' \<longrightarrow>
                wordIndex s' = max 0 (wordIndex s - REWIND_COUNT) \<and>
                progressCalls s' = progressCalls s @ [(b, max 0 (wordIndex s - REWIND_COUNT))]) \<and>
             (isPlaying s' \<longrightarrow> progressCalls s' = progressCalls s)) \<and>
         (deadman st \<longrightarrow>
           (let s' = handlePointerUp st b now s
            in \<not> isPlaying s' \<and> wordIndex s' = max 0 (wordIndex s - REWIND_COUNT) \<and>
               progressCalls s' = progressCalls s @ [(b, max 0 (wordIndex s - REWIND_COUNT))])) \<and>
         (\<not> deadman st \<and> \<not> showSettings s \<longrightarrow>
           (let s' = handlePointerDown ws st b x y n1 n2 s
            in \<not> isPlaying s' \<and> wordIndex s' = max 0 (wordIndex s - REWIND_COUNT) \<and>
               progressCalls s' = progressCalls s @ [(b, max 0 (wordIndex s - REWIND_COUNT))]))"
proof -
  have a: "let s' = stopPlayback b s
          in \<not> isPlaying s' \<and> wordIndex s' = max 0 (wordIndex s - REWIND_COUNT) \<and>
             progressCalls s' = progressCalls s @ [(b, max 0 (wordIndex s - REWIND_COUNT))]"
    using assms by (simp add: stopPlayback_playing)
  have b: "let s2 = updateSpeed st t (s\<lparr>lastFrameTime := t\<rparr>);
              s' = loop ws st b t s
          in (\<not> isPlaying s' \<longleftrightarrow>
                (0 < currentWPM s2 \<and>
                 msForThisWord ws st s2 \<le> accumulatedTime s + deltaTime t s \<and>
                 int (length ws) \<le> wordIndex s + 1)) \<and>
             (\<not> isPlaying s' \<longrightarrow>
                wordIndex s' = max 0 (wordIndex s - REWIND_COUNT) \<and>
                progressCalls s' = progressCalls s @ [(b, max 0 (wordIndex s - REWIND_COUNT))]) \<and>
             (isPlaying s' \<longrightarrow> progressCalls s' = progressCalls s)"
    unfolding Let_def
    using loop_stops_iff [OF assms, of ws st b t] loop_stop [OF assms, of ws st b t]
      loop_run [of ws st b t s]
    by blast
  have c: "deadman st \<longrightarrow>
           (let s' = handlePointerUp st b now s
            in \<not> isPlaying s' \<and> wordIndex s' = max 0 (wordIndex s - REWIND_COUNT) \<and>
               progressCalls s' = progressCalls s @ [(b, max 0 (wordIndex s - REWIND_COUNT))])"
    using assms by (simp add: handlePointerUp_def stopPlayback_playing Let_def)
  have d: "\<not> deadman st \<and> \<not> showSettings s \<longrightarrow>
           (let s' = handlePointerDown ws st b x y n1 n2 s
            in \<not> isPlaying s' \<and> wordIndex s' = max 0 (wordIndex s - REWIND_COUNT) \<and>
               progressCalls s' = progressCalls s @ [(b, max 0 (wordIndex s - REWIND_COUNT))])"
    using assms by (simp add: handlePointerDown_def stopPlayback_playing Let_def)
  from a b c d show ?thesis by blast
qed

theorem C5_stop_transition_witness:
  "isPlaying demoLastWord \<and>
   \<not> isPlaying (loop demoWords demoSettings ''book'' 3000 demoLastWord) \<and>
   wordIndex (loop demoWords demoSettings ''book'' 3000 demoLastWord) = 6 \<and>
   progressCalls (loop demoWords demoSettings ''book'' 3000 demoLastWord) = [(''book'', 6)] \<and>
   progressCalls (stopPlayback ''book'' demoLastWord) = [(''book'', 6)] \<and>
   \<not> deadman demoSettings \<and> \<not> showSettings demoLastWord \<and>
   progressCalls (handlePointerDown demoWords demoSettings ''book'' 0 0 0 0 demoLastWord) =
     [(''book'', 6)] \<and>
   deadman (demoSettings\<lparr>deadman := True\<rparr>) \<and>
   progressCalls (handlePointerUp (demoSettings\<lparr>deadman := True\<rparr>) ''book'' 4000 demoLastWord) =
     [(''book'', 6)]"
  using C5_stop_transition [of demoLastWord "''book''" demoSettings 3000 demoWords 0 0 0 0 0]
    C5_stop_transition [of demoLastWord "''book''" "demoSettings\<lparr>deadman := True\<rparr>" 3000
      demoWords 4000 0 0 0 0]
  by (simp add: demoLastWord_eval) (simp add: loop_eval_defs)

subsection \<open>C9: the word index stays inside the sequence\<close>

text \<open>
  C9: if \<open>0 \<le> wordIndex < wordCount\<close> (so the sequence is not empty), the same holds
  after Start, after a per-frame update, after Stop, and after each of the three pointer
  handlers.
\<close>

theorem C9_wordIndex_invariant:
  assumes "0 \<le> wordIndex s" and "wordIndex s < int (length ws)"
  shows "(0 \<le> wordIndex (startPlayback ws x y n1 n2 s) \<and>
          wordIndex (startPlayback ws x y n1 n2 s) < int (length ws)) \<and>
         (0 \<le> wordIndex (loop ws st b t s) \<and> wordIndex (loop ws st b t s) < int (length ws)) \<and>
         (0 \<le> wordIndex (stopPlayback b s) \<and> wordIndex (stopPlayback b s) < int (length ws)) \<and>
         (0 \<le> wordIndex (handlePointerDown ws st b x y n1 n2 s) \<and>
          wordIndex (handlePointerDown ws st b x y n1 n2 s) < int (length ws)) \<and>
         (0 \<le> wordIndex (handlePointerUp st b n1 s) \<and>
          wordIndex (handlePointerUp st b n1 s) < int (length ws)) \<and>
         (0 \<le> wordIndex (handlePointerMove x y n1 s) \<and>
          wordIndex (handlePointerMove x y n1 s) < int (length ws))"
proof -
  note a = startPlayback_inv [OF assms] loop_inv [OF assms] stopPlayback_inv [OF assms]
  have d: "0 \<le> wordIndex (handlePointerDown ws st b x y n1 n2 s) \<and>
           wordIndex (handlePointerDown ws st b x y n1 n2 s) < int (length ws)"
    using a assms by (simp add: handlePointerDown_def)
  have u: "0 \<le> wordIndex (handlePointerUp st b n1 s) \<and>
           wordIndex (handlePointerUp st b n1 s) < int (length ws)"
    using a assms by (simp add: handlePointerUp_def Let_def)
  show ?thesis using a d u assms by (simp add: handlePointerMove_wordIndex)
qed

theorem C9_wordIndex_invariant_witness:
  "0 \<le> wordIndex demoLastWord \<and> wordIndex demoLastWord < int (length demoWords) \<and>
   wordIndex (startPlayback demoWords 0 0 0 0 demoLastWord) = 0 \<and>
   wordIndex (loop demoWords demoSettings ''book'' 3000 demoLastWord) = 6 \<and>
   wordIndex (stopPlayback ''book'' demoLastWord) = 6"
  using C9_wordIndex_invariant [of demoLastWord demoWords 0 0 0 0 demoSettings "''book''" 3000]
  by (simp add: demoLastWord_eval) (simp add: loop_eval_defs startPlayback_def)

subsection \<open>C10: a frame while stopped\<close>

text \<open>
  C10: a per-frame update of a stopped reader leaves \<open>wordIndex\<close>,
  \<open>accumulatedTime\<close>, \<open>targetWPM\<close> and the cruise setpoint unchanged and sets
  \<open>lastFrameTime\<close> and \<open>currentWPM\<close> to 0. A Start after it begins with
  \<open>accumulatedTime = 0\<close> and \<open>lastFrameTime\<close> equal to the time of the Start, so the
  \<open>deltaTime\<close> of the first frame after Start counts from the Start only.
\<close>

theorem C10_stopped_frame:
  assumes "\<not> isPlaying s"
  shows "let s' = loop ws st b t s
         in wordIndex s' = wordIndex s \<and> accumulatedTime s' = accumulatedTime s \<and>
            targetWPM s' = targetWPM s \<and> dragStartWPM s' = dragStartWPM s \<and>
            lastFrameTime s' = 0 \<and> currentWPM s' = 0 \<and> \<not> isPlaying s' \<and>
            progressCalls s' = progressCalls s \<and>
            (let s'' = startPlayback ws x y n1 n2 s'
             in accumulatedTime s'' = 0 \<and> lastFrameTime s'' = n2 \<and>
                deltaTime t' s'' = (if n2 = 0 then 0 else t' - n2))"
  using assms by (simp add: loop_idle Let_def startPlayback_def deltaTime_def)

theorem C10_stopped_frame_witness:
  "\<not> isPlaying (stopPlayback ''book'' demoFrame3) \<and>
   lastFrameTime (stopPlayback ''book'' demoFrame3) = 2500 \<and>
   currentWPM (stopPlayback ''book'' demoFrame3) = 400 \<and>
   wordIndex (stopPlayback ''book'' demoFrame3) = 0 \<and>
   accumulatedTime (stopPlayback ''book'' demoFrame3) = 1190 \<and>
   lastFrameTime (loop demoWords demoSettings ''book'' 2516 (stopPlayback ''book'' demoFrame3)) = 0 \<and>
   currentWPM (loop demoWords demoSettings ''book'' 2516 (stopPlayback ''book'' demoFrame3)) = 0 \<and>
   wordIndex (loop demoWords demoSettings ''book'' 2516 (stopPlayback ''book'' demoFrame3)) = 0 \<and>
   accumulatedTime (loop demoWords demoSettings ''book'' 2516 (stopPlayback ''book'' demoFrame3)) =
     1190 \<and>
   targetWPM (loop demoWords demoSettings ''book'' 2516 (stopPlayback ''book'' demoFrame3)) = 400 \<and>
   dragStartWPM (loop demoWords demoSettings ''book'' 2516 (stopPlayback ''book'' demoFrame3)) =
     400 \<and>
   accumulatedTime (startPlayback demoWords 0 0 9000 9000
      (loop demoWords demoSettings ''book'' 2516 (stopPlayback ''book'' demoFrame3))) = 0 \<and>
   deltaTime 9016 (startPlayback demoWords 0 0 9000 9000
      (loop demoWords demoSettings ''book'' 2516 (stopPlayback ''book'' demoFrame3))) = 16"
proof -
  have f: "\<not> isPlaying (stopPlayback ''book'' demoFrame3)"
    "lastFrameTime (stopPlayback ''book'' demoFrame3) = 2500"
    "currentWPM (stopPlayback ''book'' demoFrame3) = 400"
    "wordIndex (stopPlayback ''book'' demoFrame3) = 0"
    "accumulatedTime (stopPlayback ''book'' demoFrame3) = 1190"
    "targetWPM (stopPlayback ''book'' demoFrame3) = 400"
    "dragStartWPM (stopPlayback ''book'' demoFrame3) = 400"
    by (simp_all add: demoFrame3_def demoStart_eval stopPlayback_def Let_def REWIND_COUNT_def)
  note T = C10_stopped_frame [OF f(1), of demoWords demoSettings "''book''" 2516 0 0 9000 9000 9016,
      unfolded Let_def]
  from T f show ?thesis by simp
qed

subsection \<open>C4: auto-rev from 300 back to 500\<close>

text \<open>
  C4: with \<open>autoRev\<close> on, no drag in progress, \<open>targetWPM = 300\<close> and cruise setpoint
  500, the effective target of a frame at time \<open>t\<close> is 300 (and nothing is written) while
  \<open>t - lastDragTime \<le> AUTO_REV_DELAY_MS\<close>. After that it is
  \<open>300 + 200 * (1 - (1 - p)^3)\<close> with
  \<open>p = clamp ((t - lastDragTime - AUTO_REV_DELAY_MS) / AUTO_REV_DURATION_MS) 0 1\<close>; the
  frame writes \<open>targetWPM := 500\<close> exactly when \<open>p \<ge> 0.99\<close>. The effective target is
  non-decreasing in \<open>t\<close>, lies between 300 and 500, and is exactly 500 once the whole
  duration has passed. After the snap every later frame has effective target exactly
  500; this is stated for the snapped state and for the state the loop returns.
\<close>

theorem C4_auto_rev:
  assumes "autoRev st" and "\<not> isDragging s" and "targetWPM s = 300" and "dragStartWPM s = 500"
  shows "(t - lastDragTime s \<le> AUTO_REV_DELAY_MS \<longrightarrow> autoRevLogic st t s = (300, s)) \<and>
         (AUTO_REV_DELAY_MS < t - lastDragTime s \<longrightarrow>
            (let p = max 0 (min 1 ((t - lastDragTime s - AUTO_REV_DELAY_MS) / AUTO_REV_DURATION_MS))
             in fst (autoRevLogic st t s) = 300 + 200 * (1 - (1 - p) ^ 3) \<and>
                snd (autoRevLogic st t s) = (if 99 / 100 \<le> p then s\<lparr>targetWPM := 500\<rparr> else s))) \<and>
         (t \<le> t' \<longrightarrow> fst (autoRevLogic st t s) \<le> fst (autoRevLogic st t' s)) \<and>
         300 \<le> fst (autoRevLogic st t s) \<and> fst (autoRevLogic st t s) \<le> 500 \<and>
         (AUTO_REV_DELAY_MS + AUTO_REV_DURATION_MS \<le> t - lastDragTime s \<longrightarrow>
            fst (autoRevLogic st t s) = 500) \<and>
         autoRevLogic st t' (s\<lparr>targetWPM := 500\<rparr>) = (500, s\<lparr>targetWPM := 500\<rparr>) \<and>
         (isPlaying s \<and> AUTO_REV_DELAY_MS < t - lastDragTime s \<and>
          99 / 100 \<le> (t - lastDragTime s - AUTO_REV_DELAY_MS) / AUTO_REV_DURATION_MS \<longrightarrow>
            targetWPM (loop ws st b t s) = 500 \<and>
            fst (autoRevLogic st t' (loop ws st b t s)) = 500)"
proof -
  let ?d = "t - lastDragTime s"
  have lt: "targetWPM s < dragStartWPM s" using assms by simp
  have a: "?d \<le> AUTO_REV_DELAY_MS \<longrightarrow> autoRevLogic st t s = (300, s)"
    using assms(3) by (simp add: autoRevLogic_wait)
  have b: "AUTO_REV_DELAY_MS < ?d \<longrightarrow>
            (let p = max 0 (min 1 ((?d - AUTO_REV_DELAY_MS) / AUTO_REV_DURATION_MS))
             in fst (autoRevLogic st t s) = 300 + 200 * (1 - (1 - p) ^ 3) \<and>
                snd (autoRevLogic st t s) = (if 99 / 100 \<le> p then s\<lparr>targetWPM := 500\<rparr> else s))"
  proof
    assume d: "AUTO_REV_DELAY_MS < ?d"
    show "let p = max 0 (min 1 ((?d - AUTO_REV_DELAY_MS) / AUTO_REV_DURATION_MS))
             in fst (autoRevLogic st t s) = 300 + 200 * (1 - (1 - p) ^ 3) \<and>
                snd (autoRevLogic st t s) = (if 99 / 100 \<le> p then s\<lparr>targetWPM := 500\<rparr> else s)"
      unfolding Let_def revProgress_clamp [OF d, symmetric]
      using assms(3,4) by (simp add: autoRevLogic_rev [OF assms(1,2) lt d])
  qed
  have c: "t \<le> t' \<longrightarrow> fst (autoRevLogic st t s) \<le> fst (autoRevLogic st t' s)"
    using autoRevLogic_fst_mono [OF assms(1,2) lt] by blast
  have e: "300 \<le> fst (autoRevLogic st t s) \<and> fst (autoRevLogic st t s) \<le> 500"
    using autoRevLogic_fst_bounds [of s st t] assms(3,4) by simp
  have f: "AUTO_REV_DELAY_MS + AUTO_REV_DURATION_MS \<le> ?d \<longrightarrow> fst (autoRevLogic st t s) = 500"
  proof
    assume h: "AUTO_REV_DELAY_MS + AUTO_REV_DURATION_MS \<le> ?d"
    then have d: "AUTO_REV_DELAY_MS < ?d" by (simp add: AUTO_REV_DURATION_MS_def)
    show "fst (autoRevLogic st t s) = 500"
      using assms(3,4) by (simp add: autoRevLogic_rev [OF assms(1,2) lt d] revProgress_full [OF h])
  qed
  have g: "autoRevLogic st t' (s\<lparr>targetWPM := 500\<rparr>) = (500, s\<lparr>targetWPM := 500\<rparr>)"
    using assms(4) by (simp add: autoRevLogic_cruise)
  have h: "isPlaying s \<and> AUTO_REV_DELAY_MS < ?d \<and>
          99 / 100 \<le> (?d - AUTO_REV_DELAY_MS) / AUTO_REV_DURATION_MS \<longrightarrow>
            targetWPM (loop ws st b t s) = 500 \<and>
            fst (autoRevLogic st t' (loop ws st b t s)) = 500"
  proof
    assume k: "isPlaying s \<and> AUTO_REV_DELAY_MS < ?d \<and>
          99 / 100 \<le> (?d - AUTO_REV_DELAY_MS) / AUTO_REV_DURATION_MS"
    then have d: "AUTO_REV_DELAY_MS < ?d" by simp
    have rp: "99 / 100 \<le> revProgress ?d" using k by (simp add: revProgress_def)
    have "targetWPM (snd (autoRevLogic st t s)) = 500"
      using assms(4) rp by (simp add: autoRevLogic_rev [OF assms(1,2) lt d])
    then have tg: "targetWPM (loop ws st b t s) = 500"
      using k by (simp add: loop_targetWPM autoRevLogic_lastFrameTime)
    have "dragStartWPM (loop ws st b t s) \<le> targetWPM (loop ws st b t s)"
      using tg assms(4) by (simp add: loop_fields)
    from autoRevLogic_cruise [OF this, of st t'] tg
    show "targetWPM (loop ws st b t s) = 500 \<and> fst (autoRevLogic st t' (loop ws st b t s)) = 500"
      by simp
  qed
  from a b c e f g h show ?thesis by blast
qed

theorem C4_auto_rev_witness:
  "autoRev demoSettings \<and> \<not> isDragging demoBraked \<and> targetWPM demoBraked = 300 \<and>
   dragStartWPM demoBraked = 500 \<and> isPlaying demoBraked \<and> lastDragTime demoBraked = 4000 \<and>
   autoRevLogic demoSettings 5000 demoBraked = (300, demoBraked) \<and>
   fst (autoRevLogic demoSettings 7500 demoBraked) = 475 \<and>
   snd (autoRevLogic demoSettings 7500 demoBraked) = demoBraked \<and>
   fst (autoRevLogic demoSettings 9000 demoBraked) = 500 \<and>
   targetWPM (loop demoWords demoSettings ''book'' 9000 demoBraked) = 500 \<and>
   fst (autoRevLogic demoSettings 9016 (loop demoWords demoSettings ''book'' 9000 demoBraked)) = 500"
proof -
  have h: "autoRev demoSettings" "\<not> isDragging demoBraked" "targetWPM demoBraked = 300"
    "dragStartWPM demoBraked = 500"
    by (simp_all add: demoBraked_eval demoSettings_def)
  have f: "isPlaying demoBraked" "lastDragTime demoBraked = 4000"
    by (simp_all add: demoBraked_eval)
  note c = AUTO_REV_DELAY_MS_def AUTO_REV_DURATION_MS_def
  have w1: "autoRevLogic demoSettings 5000 demoBraked = (300, demoBraked)"
    using C4_auto_rev [OF h, of 5000 5000 demoWords "''book''", THEN conjunct1]
    by (simp add: f c)
  have w2: "fst (autoRevLogic demoSettings 7500 demoBraked) = 475 \<and>
            snd (autoRevLogic demoSettings 7500 demoBraked) = demoBraked"
    using C4_auto_rev [OF h, of 7500 7500 demoWords "''book''", THEN conjunct2, THEN conjunct1]
    by (simp add: f c Let_def power_divide)
  have w3: "fst (autoRevLogic demoSettings 9000 demoBraked) = 500"
    using C4_auto_rev [OF h, of 9000 9016 demoWords "''book''", THEN conjunct2, THEN conjunct1]
    by (simp add: f c Let_def)
  have w4: "targetWPM (loop demoWords demoSettings ''book'' 9000 demoBraked) = 500 \<and>
     fst (autoRevLogic demoSettings 9016 (loop demoWords demoSettings ''book'' 9000 demoBraked)) = 500"
    using C4_auto_rev [OF h, of 9000 9016 demoWords "''book''", THEN conjunct2, THEN conjunct2,
        THEN conjunct2, THEN conjunct2, THEN conjunct2, THEN conjunct2, THEN conjunct2]
    by (simp add: f c)
  from h f w1 w2 w3 w4 show ?thesis by blast
qed

subsection \<open>C7: the ramp after Start\<close>

text \<open>
  C7: take a playing reader with an integer \<open>targetWPM\<close> between \<open>MIN_WPM\<close> and
  \<open>MAX_WPM\<close> that is cruising (cruise setpoint equal to \<open>targetWPM\<close>, as Start leaves
  it and as it stays without a drag), and run the per-frame update over a non-decreasing
  list of timestamps, the reader still playing after each frame. Then the values of
  \<open>currentWPM\<close> after the frames are non-decreasing, none exceeds \<open>targetWPM\<close>
  (which stays fixed), a frame at the Start timestamp gives 0, a frame at or after the
  Start timestamp gives a non-negative value, and a frame at or after
  \<open>startTime + RAMP_UP_DURATION_MS\<close> gives exactly \<open>targetWPM\<close>.
\<close>

theorem C7_ramp_up:
  assumes "isPlaying s"
    and "targetWPM s = of_int T"
    and "MIN_WPM \<le> targetWPM s" and "targetWPM s \<le> MAX_WPM"
    and "dragStartWPM s = targetWPM s"
    and "sorted ts"
    and "\<forall>s' \<in> set (frames ws st b ts s). isPlaying s'"
  shows "sorted (map currentWPM (frames ws st b ts s)) \<and>
         (\<forall>s' \<in> set (frames ws st b ts s). currentWPM s' \<le> targetWPM s \<and> targetWPM s' = targetWPM s) \<and>
         (\<forall>i < length ts. ts ! i = startTime s \<longrightarrow> currentWPM (frames ws st b ts s ! i) = 0) \<and>
         (\<forall>i < length ts. startTime s \<le> ts ! i \<longrightarrow> 0 \<le> currentWPM (frames ws st b ts s ! i)) \<and>
         (\<forall>i < length ts. startTime s + RAMP_UP_DURATION_MS \<le> ts ! i \<longrightarrow>
              currentWPM (frames ws st b ts s ! i) = targetWPM s)"
proof -
  have T0: "0 \<le> targetWPM s" using assms(3) by (simp add: MIN_WPM_def)
  note fc = frames_cruise [OF assms(5) assms(7) assms(1)]
  have m: "map currentWPM (frames ws st b ts s) =
           map (\<lambda>t. of_int \<lfloor>targetWPM s * rampEase t s\<rfloor>) ts" using fc by simp
  have len: "length (frames ws st b ts s) = length ts"
    using arg_cong [OF m, of length] by simp
  have nth: "currentWPM (frames ws st b ts s ! i) = of_int \<lfloor>targetWPM s * rampEase (ts ! i) s\<rfloor>"
    if "i < length ts" for i
    using arg_cong [OF m, of "\<lambda>xs. xs ! i"] that len by simp
  have a: "sorted (map currentWPM (frames ws st b ts s))"
    unfolding m using assms(6) rampSpeed_mono [OF T0] by (rule sorted_map_mono)
  have b: "\<forall>s' \<in> set (frames ws st b ts s). currentWPM s' \<le> targetWPM s \<and> targetWPM s' = targetWPM s"
  proof
    fix s' assume s': "s' \<in> set (frames ws st b ts s)"
    then obtain i where i: "i < length ts" "s' = frames ws st b ts s ! i"
      by (metis in_set_conv_nth len)
    have "currentWPM s' \<le> targetWPM s"
      using nth [OF i(1)] i(2) rampSpeed_le [OF T0] by simp
    with fc s' show "currentWPM s' \<le> targetWPM s \<and> targetWPM s' = targetWPM s" by simp
  qed
  have c: "\<forall>i < length ts. ts ! i = startTime s \<longrightarrow> currentWPM (frames ws st b ts s ! i) = 0"
    by (simp add: nth rampEase_start)
  have d: "\<forall>i < length ts. startTime s \<le> ts ! i \<longrightarrow> 0 \<le> currentWPM (frames ws st b ts s ! i)"
    using T0 by (simp add: nth rampEase_ge_0)
  have e: "\<forall>i < length ts. startTime s + RAMP_UP_DURATION_MS \<le> ts ! i \<longrightarrow>
              currentWPM (frames ws st b ts s ! i) = targetWPM s"
    by (simp add: nth rampEase_full assms(2))
  from a b c d e show ?thesis by blast
qed

theorem C7_ramp_up_witness:
  "isPlaying demoStart \<and> targetWPM demoStart = of_int 400 \<and> MIN_WPM \<le> targetWPM demoStart \<and>
   targetWPM demoStart \<le> MAX_WPM \<and> dragStartWPM demoStart = targetWPM demoStart \<and>
   sorted [1000, 1750, 2500 :: real] \<and>
   frames demoWords demoSettings ''book'' [1000, 1750, 2500] demoStart =
     [demoFrame1, demoFrame2, demoFrame3] \<and>
   isPlaying demoFrame1 \<and> isPlaying demoFrame2 \<and> isPlaying demoFrame3 \<and>
   map currentWPM (frames demoWords demoSettings ''book'' [1000, 1750, 2500] demoStart) =
     [0, 375, 400] \<and>
   sorted (map currentWPM (frames demoWords demoSettings ''book'' [1000, 1750, 2500] demoStart)) \<and>
   currentWPM (frames demoWords demoSettings ''book'' [1000, 1750, 2500] demoStart ! 2) =
     targetWPM demoStart"
proof -
  have h: "isPlaying demoStart" "targetWPM demoStart = of_int 400" "MIN_WPM \<le> targetWPM demoStart"
    "targetWPM demoStart \<le> MAX_WPM" "dragStartWPM demoStart = targetWPM demoStart"
    "sorted [1000, 1750, 2500 :: real]"
    by (simp_all add: demoStart_eval consts_defs)
  have p: "\<forall>s' \<in> set (frames demoWords demoSettings ''book'' [1000, 1750, 2500] demoStart).
      isPlaying s'"
    unfolding demoFrames_eval
    by (simp add: demoFrame1_def demoFrame2_def demoFrame3_def h(1))
  have m: "map currentWPM (frames demoWords demoSettings ''book'' [1000, 1750, 2500] demoStart) =
     [0, 375, 400]"
    unfolding demoFrames_eval by (simp add: demoFrame1_def demoFrame2_def demoFrame3_def)
  note T = C7_ramp_up [OF h p]
  have s: "sorted (map currentWPM
             (frames demoWords demoSettings ''book'' [1000, 1750, 2500] demoStart))"
    using T [THEN conjunct1] .
  have st: "startTime demoStart = 1000" by (simp add: demoStart_eval)
  have "\<forall>i<length [1000, 1750, 2500 :: real].
          startTime demoStart + RAMP_UP_DURATION_MS \<le> [1000, 1750, 2500] ! i \<longrightarrow>
          currentWPM (frames demoWords demoSettings ''book'' [1000, 1750, 2500] demoStart ! i) =
          targetWPM demoStart"
    using T [THEN conjunct2, THEN conjunct2, THEN conjunct2, THEN conjunct2] .
  from this [rule_format, of 2]
  have r: "currentWPM (frames demoWords demoSettings ''book'' [1000, 1750, 2500] demoStart ! 2) =
     targetWPM demoStart"
    by (simp add: st RAMP_UP_DURATION_MS_def)
  have q: "isPlaying demoFrame1" "isPlaying demoFrame2" "isPlaying demoFrame3"
    using p unfolding demoFrames_eval by simp_all
  from h q m s r demoFrames_eval show ?thesis by blast
qed

end
